theory Spec2Isabelle
  imports Complex_Main "HOL-Library.Word"
begin

section \<open>Data model\<close>

text \<open>
  The stage engine of \<^verbatim>\<open>os_tester/StagesSystem.py\<close> and the machine driver of
  \<^verbatim>\<open>os_tester/newvm.py\<close>. Python floats are modelled by rationals, extended by the
  two special values the scorer can produce (\<open>NaN\<close> and \<open>PInf\<close>); Python's
  \<^verbatim>\<open>None\<close> is \<open>None\<close> of an option type, so the string \<^verbatim>\<open>"None"\<close> is
  \<open>Some ''None''\<close>.
\<close>

text \<open>An image as \<^verbatim>\<open>cv2.imread\<close> returns it: rows of pixels of \<^verbatim>\<open>uint8\<close> channels.\<close>

type_synonym pixel = "8 word list"
type_synonym image = "pixel list list"

datatype pyfloat = NaN | PInf | Fin rat

datatype pyval = PStr string | PNum rat

text \<open>The value of an action descriptor's single entry, a dictionary such as
  \<^verbatim>\<open>{"value": "a", "duration_s": 0.1}\<close>.\<close>

type_synonym payload = "(string \<times> pyval) list"

text \<open>An action descriptor, \<^verbatim>\<open>Dict[str, Any]\<close>, as an association list.\<close>

type_synonym action = "(string \<times> payload) list"

record subpath =
  checkFile :: string
  checkMseLeq :: rat
  checkSsimGeq :: rat
  nextStage :: "string option"

record stage =
  name :: string
  actions :: "action list"
  timeoutS :: rat
  pathsList :: "subpath list"

datatype error =
    SystemExit nat
  | AttributeError string
  | UnboundLocalError string
  | InvalidStageAction action
  | IndexError
  | TypeError
  | Cv2Error

section \<open>The image similarity scorer\<close>

text \<open>\<^verbatim>\<open>img.shape[:2]\<close>: height and width.\<close>

definition shape2 :: "image \<Rightarrow> nat \<times> nat" where
  "shape2 img = (length img, (case img of [] \<Rightarrow> 0 | r # _ \<Rightarrow> length r))"

text \<open>
  \<^verbatim>\<open>cv2.subtract\<close> on \<^verbatim>\<open>uint8\<close> matrices saturates: a negative difference is 0.
  It is applied to two matrices of one shape (the capture has been resized to the
  reference).
\<close>

definition sat_sub :: "8 word \<Rightarrow> 8 word \<Rightarrow> 8 word" where
  "sat_sub a b = (if b \<le> a then a - b else 0)"

definition cv2_subtract :: "image \<Rightarrow> image \<Rightarrow> image" where
  "cv2_subtract a b = map2 (map2 (map2 sat_sub)) a b"

text \<open>\<^verbatim>\<open>imgDif**2\<close> on a \<^verbatim>\<open>uint8\<close> array stays \<^verbatim>\<open>uint8\<close>: the square wraps
  modulo 256.\<close>

definition np_square :: "image \<Rightarrow> image" where
  "np_square img = map (map (map (\<lambda>d. d * d))) img"

text \<open>\<^verbatim>\<open>np.sum\<close> of a \<^verbatim>\<open>uint8\<close> array accumulates in \<^verbatim>\<open>uint64\<close>.\<close>

definition np_sum :: "image \<Rightarrow> nat" where
  "np_sum img = sum_list (map (\<lambda>row. sum_list (map (\<lambda>px. sum_list (map unat px)) row)) img) mod 2 ^ 64"

text \<open>\<^verbatim>\<open>err / float(h * w)\<close> with a numpy scalar on the left: a zero divisor gives
  \<^verbatim>\<open>nan\<close> or \<^verbatim>\<open>inf\<close> (and a warning), not an exception.\<close>

definition np_div :: "nat \<Rightarrow> nat \<Rightarrow> pyfloat" where
  "np_div err n =
     (if n = 0 then (if err = 0 then NaN else PInf) else Fin (of_nat err / of_nat n))"

text \<open>Python's \<^verbatim>\<open>min(mse, 10)\<close>: the first argument is kept unless the second is
  strictly smaller, so \<^verbatim>\<open>nan\<close> is kept.\<close>

definition py_min :: "pyfloat \<Rightarrow> rat \<Rightarrow> pyfloat" where
  "py_min x b = (case x of NaN \<Rightarrow> NaN | PInf \<Rightarrow> Fin b | Fin a \<Rightarrow> (if b < a then Fin b else Fin a))"

text \<open>Python's \<^verbatim>\<open>x < b\<close> and \<^verbatim>\<open>x <= b\<close> for a float \<open>x\<close>.\<close>

definition py_less :: "pyfloat \<Rightarrow> rat \<Rightarrow> bool" where
  "py_less x b = (case x of NaN \<Rightarrow> False | PInf \<Rightarrow> False | Fin a \<Rightarrow> a < b)"

definition py_le :: "pyfloat \<Rightarrow> rat \<Rightarrow> bool" where
  "py_le x b = (case x of NaN \<Rightarrow> False | PInf \<Rightarrow> False | Fin a \<Rightarrow> a \<le> b)"

definition img_mse :: "image \<Rightarrow> image \<Rightarrow> pyfloat \<times> image" where
  "img_mse curImg refImg =
     (let imgDif = cv2_subtract curImg refImg;
          err = np_sum (np_square imgDif);
          (h, w) = shape2 curImg;
          mse = np_div err (h * w)
      in (py_min mse 10, imgDif))"

text \<open>
  The two library primitives of the scorer are parameters: \<^verbatim>\<open>cv2.resize\<close> (image,
  target width, target height) and skimage's \<^verbatim>\<open>structural_similarity\<close>.
\<close>

record prims =
  resize :: "image \<Rightarrow> nat \<Rightarrow> nat \<Rightarrow> image"
  ssim :: "image \<Rightarrow> image \<Rightarrow> rat"

text \<open>
  \<^verbatim>\<open>__comp_images\<close>. Both images come from \<^verbatim>\<open>cv2.imread\<close>, which returns
  \<^verbatim>\<open>None\<close> for a file it cannot decode: \<^verbatim>\<open>refImg.shape\<close> then raises
  AttributeError, and \<^verbatim>\<open>cv2.resize\<close> of \<^verbatim>\<open>None\<close> raises \<^verbatim>\<open>cv2.error\<close>.
\<close>

definition comp_images ::
  "prims \<Rightarrow> image option \<Rightarrow> image option \<Rightarrow> error + (pyfloat \<times> rat \<times> image)" where
  "comp_images P curImg refImg =
     (case refImg of
        None \<Rightarrow> Inl (AttributeError ''shape'')
      | Some r \<Rightarrow>
          (case curImg of
             None \<Rightarrow> Inl Cv2Error
           | Some c \<Rightarrow>
               (let (hRef, wRef) = shape2 r;
                    curImgResized = resize P c wRef hRef;
                    (mse, difImg) = img_mse curImgResized r;
                    ssimIndex = ssim P curImgResized r
                in Inr (mse, ssimIndex, difImg))))"

section \<open>The machine and the outside world\<close>

text \<open>
  What a path of the file system holds: nothing, something that is not a regular file
  (a directory), or a regular file with the image \<^verbatim>\<open>cv2.imread\<close> decodes from it
  (\<open>None\<close> when it does not decode).
\<close>

datatype fentry = Missing | NonRegular | Regular "image option"

text \<open>The methods of the machine driver that the engine can reach.\<close>

datatype capability =
    TakeScreenshot
  | SendMouseMove
  | SendMouseClick
  | SendKeyboardKey
  | SendKeyboardText
  | SendCommand
  | OtherMethod

datatype arg = Path string | Payload payload

text \<open>One record sent to the debug plot: reference, capture, difference image, the two
  scores and the match flag.\<close>

type_synonym tele = "image option \<times> image option \<times> image \<times> pyfloat \<times> rat \<times> nat"

text \<open>
  The world the engine acts on. \<open>screen n\<close> is what the VM displays at the \<open>n\<close>-th
  screenshot and \<open>clock n\<close> what the \<open>n\<close>-th call of \<^verbatim>\<open>time()\<close> returns;
  \<open>shots\<close> and \<open>ticks\<close> count the calls made so far. \<open>calls\<close> is the log of input
  actions delivered to the machine, \<open>telemetry\<close> what the debug plot received, and
  \<open>ran\<close> the stages finished so far with the next stage each one asked for.
\<close>

record world =
  fs :: "string \<Rightarrow> fentry"
  screen :: "nat \<Rightarrow> image"
  shots :: nat
  clock :: "nat \<Rightarrow> rat"
  ticks :: nat
  calls :: "(capability \<times> payload) list"
  telemetry :: "tele list"
  ran :: "(string \<times> string option) list"

definition time_now :: "world \<Rightarrow> rat \<times> world" where
  "time_now w = (clock w (ticks w), w\<lparr>ticks := Suc (ticks w)\<rparr>)"

definition imread :: "(string \<Rightarrow> fentry) \<Rightarrow> string \<Rightarrow> image option" where
  "imread f p = (case f p of Regular img \<Rightarrow> img | _ \<Rightarrow> None)"

text \<open>
  A machine object is the table of its attributes by name. Inside a class body Python
  rewrites every identifier \<^verbatim>\<open>__x\<close> (two leading underscores, not two trailing ones)
  to \<^verbatim>\<open>_Class__x\<close>, in definitions and in attribute references alike.
\<close>

type_synonym machine = "string \<rightharpoonup> capability"

definition mangle :: "string \<Rightarrow> string \<Rightarrow> string" where
  "mangle cls nm =
     (if take 2 nm = ''__'' \<and> take 2 (rev nm) \<noteq> ''__''
      then ''_'' @ dropWhile (\<lambda>c. c = CHR ''_'') cls @ nm
      else nm)"

text \<open>The methods that the body of \<^verbatim>\<open>class newvm(IAction)\<close> defines, under the names
  the class holds them by.\<close>

definition newvm_class :: "(string \<times> capability) list" where
  "newvm_class =
     [(mangle ''newvm'' ''__init__'', OtherMethod),
      (mangle ''newvm'' ''try_load'', OtherMethod),
      (mangle ''newvm'' ''__get_screen_size'', OtherMethod),
      (mangle ''newvm'' ''__send_action'', OtherMethod),
      (mangle ''newvm'' ''__send_keyboard_text_action'', SendKeyboardText),
      (mangle ''newvm'' ''send_keyboard_key_action'', SendKeyboardKey),
      (mangle ''newvm'' ''send_mouse_move_action'', SendMouseMove),
      (mangle ''newvm'' ''send_mouse_click_action'', SendMouseClick),
      (mangle ''newvm'' ''send_commandk_action'', SendCommand),
      (mangle ''newvm'' ''destroy'', OtherMethod),
      (mangle ''newvm'' ''create'', OtherMethod),
      (mangle ''newvm'' ''take_screenshot'', TakeScreenshot)]"

text \<open>
  A \<^verbatim>\<open>newvm\<close> object: an attribute is looked up in the class, then in its base class
  \<^verbatim>\<open>IAction\<close>, whose attribute table \<open>base\<close> is a parameter.
\<close>

definition newvm :: "machine \<Rightarrow> machine" where
  "newvm base nm = (case map_of newvm_class nm of Some m \<Rightarrow> Some m | None \<Rightarrow> base nm)"

text \<open>
  Calling a capability. \<^verbatim>\<open>take_screenshot\<close> writes the display to the target path (the
  VM is taken to be loaded); an input capability delivers its action, which the log records.
\<close>

fun invoke :: "capability \<Rightarrow> arg \<Rightarrow> world \<Rightarrow> (error + unit) \<times> world" where
  "invoke TakeScreenshot (Path p) w =
     (Inr (), w\<lparr>fs := (fs w)(p := Regular (Some (screen w (shots w)))), shots := Suc (shots w)\<rparr>)"
| "invoke TakeScreenshot (Payload a) w = (Inl TypeError, w)"
| "invoke m (Payload a) w = (Inr (), w\<lparr>calls := calls w @ [(m, a)]\<rparr>)"
| "invoke m (Path p) w = (Inl TypeError, w)"

definition call_method :: "machine \<Rightarrow> string \<Rightarrow> arg \<Rightarrow> world \<Rightarrow> (error + unit) \<times> world" where
  "call_method M nm a w =
     (case M nm of None \<Rightarrow> (Inl (AttributeError nm), w) | Some m \<Rightarrow> invoke m a w)"

record StagesSystem =
  machine :: machine
  uuid :: string
  debugPlt :: bool

section \<open>The action dispatcher\<close>

text \<open>The body of the loop of \<^verbatim>\<open>__perform_stage_actions\<close>, written in class
  \<^verbatim>\<open>StagesSystem\<close>.\<close>

definition perform_action :: "machine \<Rightarrow> action \<Rightarrow> world \<Rightarrow> (error + unit) \<times> world" where
  "perform_action M a w =
     (case map_of a ''mouse_move'' of
        Some v \<Rightarrow> call_method M (mangle ''StagesSystem'' ''__send_mouse_move_action'') (Payload v) w
      | None \<Rightarrow>
     (case map_of a ''mouse_click'' of
        Some v \<Rightarrow> call_method M (mangle ''StagesSystem'' ''__send_mouse_click_action'') (Payload v) w
      | None \<Rightarrow>
     (case map_of a ''keyboard_key'' of
        Some v \<Rightarrow> call_method M (mangle ''StagesSystem'' ''__send_keyboard_key_action'') (Payload v) w
      | None \<Rightarrow>
     (case map_of a ''keyboard_text'' of
        Some v \<Rightarrow> call_method M (mangle ''StagesSystem'' ''__send_keyboard_text_action'') (Payload v) w
      | None \<Rightarrow>
     (case map_of a ''command'' of
        Some v \<Rightarrow> call_method M (mangle ''StagesSystem'' ''__send_keyboard_text_action'') (Payload v) w
      | None \<Rightarrow> (Inl (InvalidStageAction a), w))))))"

fun perform_actions :: "machine \<Rightarrow> action list \<Rightarrow> world \<Rightarrow> (error + unit) \<times> world" where
  "perform_actions M [] w = (Inr (), w)"
| "perform_actions M (a # as) w =
     (case perform_action M a w of
        (Inl e, w') \<Rightarrow> (Inl e, w')
      | (Inr u, w') \<Rightarrow> perform_actions M as w')"

definition perform_stage_actions :: "StagesSystem \<Rightarrow> stage \<Rightarrow> world \<Rightarrow> (error + unit) \<times> world" where
  "perform_stage_actions S stageObj w = perform_actions (machine S) (actions stageObj) w"

section \<open>The visual synchronization loop\<close>

text \<open>
  The first loop of \<^verbatim>\<open>__wait_for_stage_done\<close>: every reference file is checked and
  read, in declared order, before any screenshot is taken. \<^verbatim>\<open>sys.exit(2)\<close> is for a
  path that does not exist, \<^verbatim>\<open>sys.exit(3)\<close> for one that is no regular file.
\<close>

fun load_refs :: "(string \<Rightarrow> fentry) \<Rightarrow> subpath list \<Rightarrow> error + image option list" where
  "load_refs f [] = Inr []"
| "load_refs f (sp # sps) =
     (case f (checkFile sp) of
        Missing \<Rightarrow> Inl (SystemExit 2)
      | NonRegular \<Rightarrow> Inl (SystemExit 3)
      | Regular img \<Rightarrow>
          (case load_refs f sps of
             Inl e \<Rightarrow> Inl e
           | Inr imgs \<Rightarrow> Inr (img # imgs)))"

text \<open>
  The variable \<^verbatim>\<open>subpath\<close> that the first loop leaves behind: its last element, and
  no binding at all when the list is empty.
\<close>

definition leaked_subpath :: "subpath list \<Rightarrow> subpath option" where
  "leaked_subpath ps = (case ps of [] \<Rightarrow> None | _ # _ \<Rightarrow> Some (last ps))"

text \<open>
  The inner \<^verbatim>\<open>for index, refImg in enumerate(refImgList)\<close>. The thresholds are read
  from the variable \<^verbatim>\<open>subpath\<close>, here \<open>sub\<close>. The result is \<^verbatim>\<open>resultindex\<close>,
  initially \<open>-1\<close>.
\<close>

fun scan_refs ::
  "prims \<Rightarrow> bool \<Rightarrow> subpath option \<Rightarrow> image option \<Rightarrow> image option list \<Rightarrow> int \<Rightarrow> world
   \<Rightarrow> (error + int) \<times> world" where
  "scan_refs P dbg sub curImg [] index w = (Inr (- 1), w)"
| "scan_refs P dbg sub curImg (refImg # rest) index w =
     (case comp_images P curImg refImg of
        Inl e \<Rightarrow> (Inl e, w)
      | Inr (mse, ssimIndex, difImg) \<Rightarrow>
          (case sub of
             None \<Rightarrow> (Inl (UnboundLocalError ''subpath''), w)
           | Some sp \<Rightarrow>
               (let same = (if py_less mse (checkMseLeq sp) \<and> checkSsimGeq sp < ssimIndex
                            then 1 else 0 :: nat);
                    w' = (if dbg
                          then w\<lparr>telemetry := telemetry w @ [(refImg, curImg, difImg, mse, ssimIndex, same)]\<rparr>
                          else w)
                in if 1 \<le> same then (Inr index, w')
                   else scan_refs P dbg sub curImg rest (index + 1) w')))"

definition curImgPath :: "StagesSystem \<Rightarrow> string" where
  "curImgPath S = ''/tmp/'' @ uuid S @ ''_check.png''"

text \<open>
  The \<^verbatim>\<open>while True\<close> loop, with fuel: \<open>None\<close> is a loop that has not left after
  \<open>fuel\<close> iterations. The \<^verbatim>\<open>sleep(0.25)\<close> is time passing, which the clock of the
  world accounts for.
\<close>

fun wait_loop ::
  "nat \<Rightarrow> prims \<Rightarrow> StagesSystem \<Rightarrow> stage \<Rightarrow> rat \<Rightarrow> image option list \<Rightarrow> world
   \<Rightarrow> ((error + subpath) \<times> world) option" where
  "wait_loop 0 P S stageObj start refImgList w = None"
| "wait_loop (Suc fuel) P S stageObj start refImgList w =
     (case call_method (machine S) ''take_screenshot'' (Path (curImgPath S)) w of
        (Inl e, w1) \<Rightarrow> Some (Inl e, w1)
      | (Inr u, w1) \<Rightarrow>
          (case scan_refs P (debugPlt S) (leaked_subpath (pathsList stageObj))
                  (imread (fs w1) (curImgPath S)) refImgList 0 w1 of
             (Inl e, w2) \<Rightarrow> Some (Inl e, w2)
           | (Inr resultindex, w2) \<Rightarrow>
               if resultindex \<noteq> - 1 then Some (Inr (pathsList stageObj ! nat resultindex), w2)
               else (case time_now w2 of
                       (now, w3) \<Rightarrow>
                         if now \<le> start + timeoutS stageObj then Some (Inl (SystemExit 5), w3)
                         else wait_loop fuel P S stageObj start refImgList w3)))"

definition wait_for_stage_done ::
  "nat \<Rightarrow> prims \<Rightarrow> StagesSystem \<Rightarrow> stage \<Rightarrow> world \<Rightarrow> ((error + subpath) \<times> world) option" where
  "wait_for_stage_done fuel P S stageObj w =
     (case time_now w of
        (start, w1) \<Rightarrow>
          (case load_refs (fs w1) (pathsList stageObj) of
             Inl e \<Rightarrow> Some (Inl e, w1)
           | Inr refImgList \<Rightarrow> wait_loop fuel P S stageObj start refImgList w1))"

section \<open>The stage orchestrator\<close>

definition run_stage ::
  "nat \<Rightarrow> prims \<Rightarrow> StagesSystem \<Rightarrow> stage \<Rightarrow> world \<Rightarrow> ((error + string option) \<times> world) option" where
  "run_stage fuel P S stageObj w =
     (case time_now w of
        (start, w1) \<Rightarrow>
          (case wait_for_stage_done fuel P S stageObj w1 of
             None \<Rightarrow> None
           | Some (Inl e, w2) \<Rightarrow> Some (Inl e, w2)
           | Some (Inr subPath, w2) \<Rightarrow>
               (case perform_stage_actions S stageObj w2 of
                  (Inl e, w3) \<Rightarrow> Some (Inl e, w3)
                | (Inr u, w3) \<Rightarrow>
                    (case time_now w3 of
                       (fin, w4) \<Rightarrow>
                         Some (Inr (nextStage subPath),
                               w4\<lparr>ran := ran w4 @ [(name stageObj, nextStage subPath)]\<rparr>)))))"

text \<open>
  The \<^verbatim>\<open>for stage in stagesObj.stagesList\<close> of \<^verbatim>\<open>run_stages\<close>. Its body leaves the
  loop in both branches: \<^verbatim>\<open>break\<close> when the name is the one asked for,
  \<^verbatim>\<open>exit(10)\<close> otherwise (the \<^verbatim>\<open>else\<close> belongs to the \<^verbatim>\<open>if\<close>). So only the
  first stage of the list is ever looked at; over an empty list the variable
  \<^verbatim>\<open>nextStage\<close> keeps its value \<open>cur\<close>.
\<close>

fun find_stage :: "stage list \<Rightarrow> string option \<Rightarrow> stage \<Rightarrow> error + stage" where
  "find_stage [] nextStageName cur = Inr cur"
| "find_stage (s # rest) nextStageName cur =
     (if Some (name s) = nextStageName then Inr s else Inl (SystemExit 10))"

text \<open>What one round of the \<^verbatim>\<open>while True\<close> of \<^verbatim>\<open>run_stages\<close> does with the name
  that \<^verbatim>\<open>__run_stage\<close> returned.\<close>

datatype step = Break | Continue stage | Abort error

definition after_stage :: "stage list \<Rightarrow> stage \<Rightarrow> string option \<Rightarrow> step" where
  "after_stage stagesList cur nextStageName =
     (if nextStageName = Some ''None'' then Break
      else (case find_stage stagesList nextStageName cur of
              Inl e \<Rightarrow> Abort e
            | Inr s \<Rightarrow> Continue s))"

fun run_loop ::
  "nat \<Rightarrow> nat \<Rightarrow> prims \<Rightarrow> StagesSystem \<Rightarrow> stage list \<Rightarrow> stage \<Rightarrow> world
   \<Rightarrow> ((error + unit) \<times> world) option" where
  "run_loop 0 k P S stagesList cur w = None"
| "run_loop (Suc n) k P S stagesList cur w =
     (case run_stage k P S cur w of
        None \<Rightarrow> None
      | Some (Inl e, w') \<Rightarrow> Some (Inl e, w')
      | Some (Inr nextStageName, w') \<Rightarrow>
          (case after_stage stagesList cur nextStageName of
             Break \<Rightarrow> Some (Inr (), w')
           | Abort e \<Rightarrow> Some (Inl e, w')
           | Continue s \<Rightarrow> run_loop n k P S stagesList s w'))"

text \<open>\<^verbatim>\<open>run_stages\<close>: \<open>n\<close> bounds the stages run and \<open>k\<close> the polls of each stage.
  \<^verbatim>\<open>stagesList[0]\<close> of an empty list raises IndexError.\<close>

definition run_stages ::
  "nat \<Rightarrow> nat \<Rightarrow> prims \<Rightarrow> StagesSystem \<Rightarrow> stage list \<Rightarrow> world \<Rightarrow> ((error + unit) \<times> world) option" where
  "run_stages n k P S stagesList w =
     (case stagesList of
        [] \<Rightarrow> Some (Inl IndexError, w)
      | s # rest \<Rightarrow> run_loop n k P S stagesList s w)"

section \<open>Notions used by the properties\<close>

text \<open>A reference path that is missing or is no regular file.\<close>

definition bad_ref :: "(string \<Rightarrow> fentry) \<Rightarrow> subpath \<Rightarrow> bool" where
  "bad_ref f sp = (case f (checkFile sp) of Regular img \<Rightarrow> False | _ \<Rightarrow> True)"

text \<open>Forgetting what the debug plot received, in a world and in the outcome of a run.\<close>

definition strip_tel :: "world \<Rightarrow> world" where
  "strip_tel w = w\<lparr>telemetry := []\<rparr>"

definition strip_out :: "('a \<times> world) option \<Rightarrow> ('a \<times> world) option" where
  "strip_out r = map_option (\<lambda>(x, w). (x, strip_tel w)) r"

text \<open>
  A candidate's own thresholds, in the words of the specification: the capture scored
  against the candidate's reference image has a mean square error strictly below the
  candidate's \<open>checkMseLeq\<close> and a structural similarity strictly above the
  candidate's \<open>checkSsimGeq\<close>.
\<close>

definition own_thresholds_hold :: "prims \<Rightarrow> (string \<Rightarrow> fentry) \<Rightarrow> image \<Rightarrow> subpath \<Rightarrow> bool" where
  "own_thresholds_hold P f cur sp =
     (case comp_images P (Some cur) (imread f (checkFile sp)) of
        Inl e \<Rightarrow> False
      | Inr (mse, s, d) \<Rightarrow> py_less mse (checkMseLeq sp) \<and> checkSsimGeq sp < s)"

text \<open>
  The mean square error in the words of the specification: the capture is resized to the
  reference, the signed differences of the channel values are squared and summed, the sum
  is divided by the pixel count, and the result is clamped at 10.
\<close>

definition true_sq_err :: "image \<Rightarrow> image \<Rightarrow> int" where
  "true_sq_err a b =
     sum_list (map (\<lambda>(ra, rb).
       sum_list (map (\<lambda>(pa, pb).
         sum_list (map (\<lambda>(x, y). (uint x - uint y)\<^sup>2) (zip pa pb))) (zip ra rb))) (zip a b))"

definition mse_spec :: "prims \<Rightarrow> image \<Rightarrow> image \<Rightarrow> rat" where
  "mse_spec P cur ref =
     (case shape2 ref of
        (h, w) \<Rightarrow> min (of_int (true_sq_err (resize P cur w h) ref) / of_nat (w * h)) 10)"

section \<open>Concrete stages, images and worlds\<close>

text \<open>An image of one colour.\<close>

definition solid :: "nat \<Rightarrow> nat \<Rightarrow> pixel \<Rightarrow> image" where
  "solid h w px = replicate h (replicate w px)"

text \<open>A file system holding the listed entries and nothing else.\<close>

definition files :: "(string \<times> fentry) list \<Rightarrow> string \<Rightarrow> fentry" where
  "files al p = (case map_of al p of None \<Rightarrow> Missing | Some e \<Rightarrow> e)"

definition two_refs :: "image \<Rightarrow> image \<Rightarrow> string \<Rightarrow> fentry" where
  "two_refs a b = files [(''a.png'', Regular (Some a)), (''b.png'', Regular (Some b))]"

text \<open>The world before a run: given files, display and clock, nothing done yet.\<close>

definition boot_world :: "(string \<Rightarrow> fentry) \<Rightarrow> (nat \<Rightarrow> image) \<Rightarrow> (nat \<Rightarrow> rat) \<Rightarrow> world" where
  "boot_world f scr clk =
     \<lparr>fs = f, screen = scr, shots = 0, clock = clk, ticks = 0, calls = [], telemetry = [], ran = []\<rparr>"

text \<open>The engine on a \<^verbatim>\<open>newvm\<close> machine whose base class has the attributes \<open>base\<close>.\<close>

definition vm_system :: "machine \<Rightarrow> StagesSystem" where
  "vm_system base = \<lparr>machine = newvm base, uuid = ''vm'', debugPlt = False\<rparr>"

text \<open>
  An instance of the two library primitives for runs in which the capture already has
  the size of the reference: the image is left as it is, and every pair scores 1.
\<close>

definition plain_prims :: prims where
  "plain_prims = \<lparr>resize = (\<lambda>img w h. img), ssim = (\<lambda>a b. 1)\<rparr>"

text \<open>Two candidates, one with tight and one with lenient thresholds, and two stages.\<close>

definition tight_path :: "string \<Rightarrow> subpath" where
  "tight_path f = \<lparr>checkFile = f, checkMseLeq = 1, checkSsimGeq = 9 / 10, nextStage = Some ''desktop''\<rparr>"

definition lenient_path :: "string \<Rightarrow> subpath" where
  "lenient_path f = \<lparr>checkFile = f, checkMseLeq = 5, checkSsimGeq = 1 / 2, nextStage = Some ''recovery''\<rparr>"

definition login_stage :: "subpath list \<Rightarrow> stage" where
  "login_stage ps = \<lparr>name = ''login'', actions = [], timeoutS = 10, pathsList = ps\<rparr>"

definition desktop_stage :: stage where
  "desktop_stage =
     \<lparr>name = ''desktop'', actions = [], timeoutS = 10,
      pathsList = [\<lparr>checkFile = ''b.png'', checkMseLeq = 1, checkSsimGeq = 9 / 10,
                    nextStage = Some ''None''\<rparr>]\<rparr>"

text \<open>
  The capability that the specification assigns to an action descriptor, with the value
  it is called on; \<open>None\<close> for a descriptor of no known kind.
\<close>

definition capability_of :: "action \<Rightarrow> (capability \<times> payload) option" where
  "capability_of a =
     (case map_of a ''mouse_move'' of Some v \<Rightarrow> Some (SendMouseMove, v) | None \<Rightarrow>
     (case map_of a ''mouse_click'' of Some v \<Rightarrow> Some (SendMouseClick, v) | None \<Rightarrow>
     (case map_of a ''keyboard_key'' of Some v \<Rightarrow> Some (SendKeyboardKey, v) | None \<Rightarrow>
     (case map_of a ''keyboard_text'' of Some v \<Rightarrow> Some (SendKeyboardText, v) | None \<Rightarrow>
     (case map_of a ''command'' of Some v \<Rightarrow> Some (SendKeyboardText, v) | None \<Rightarrow> None)))))"

text \<open>
  A machine object that does have the four attributes the dispatcher asks for, each bound
  to the capability its name stands for.
\<close>

definition bound_machine :: machine where
  "bound_machine = map_of
     [(''_StagesSystem__send_mouse_move_action'', SendMouseMove),
      (''_StagesSystem__send_mouse_click_action'', SendMouseClick),
      (''_StagesSystem__send_keyboard_key_action'', SendKeyboardKey),
      (''_StagesSystem__send_keyboard_text_action'', SendKeyboardText),
      (''take_screenshot'', TakeScreenshot)]"

text \<open>A stage whose only action moves the pointer to the middle of the screen.\<close>

definition move_stage :: stage where
  "move_stage =
     \<lparr>name = ''login'',
      actions = [[(''mouse_move'', [(''x_rel'', PNum (1 / 2)), (''y_rel'', PNum (1 / 2)), (''duration_s'', PNum 1)])]],
      timeoutS = 10, pathsList = []\<rparr>"

text \<open>A reference image that the loop accepts when it applies the thresholds of \<open>sp\<close>.\<close>

definition accepted_by :: "prims \<Rightarrow> subpath \<Rightarrow> image option \<Rightarrow> image option \<Rightarrow> bool" where
  "accepted_by P sp cur refImg =
     (case comp_images P cur refImg of
        Inl e \<Rightarrow> False
      | Inr (mse, s, d) \<Rightarrow> py_less mse (checkMseLeq sp) \<and> checkSsimGeq sp < s)"

section \<open>Properties of the scorer\<close>

lemma py_min_le: "x \<noteq> NaN \<Longrightarrow> py_le (py_min x b) b"
  by (cases x) (simp_all add: py_min_def py_le_def)

lemma np_div_not_NaN: "0 < n \<Longrightarrow> np_div err n \<noteq> NaN"
  by (simp add: np_div_def)

text \<open>
  Claim C8 (clamp law). For every pair of images the mean square error that
  \<^verbatim>\<open>__img_mse\<close> returns is at most 10. An image that \<^verbatim>\<open>cv2\<close> hands out has at
  least one pixel, which is the hypothesis: the score of a matrix without pixels would be
  \<^verbatim>\<open>nan\<close>.
\<close>

theorem img_mse_clamp:
  assumes "shape2 curImg = (h, w)" and "0 < h" and "0 < w"
  shows "py_le (fst (img_mse curImg refImg)) 10"
  using assms by (simp add: img_mse_def Let_def py_min_le np_div_not_NaN)

theorem img_mse_clamp_witness:
  "shape2 [[[1, 2, 3]]] = (1, 1) \<and> (0::nat) < 1
   \<and> py_le (fst (img_mse [[[1, 2, 3]]] [[[200, 2, 0]]])) 10"
proof -
  have s: "shape2 [[[1, 2, 3]]] = (1, 1)" by (simp add: shape2_def)
  have p: "(0::nat) < 1" by simp
  from img_mse_clamp [OF s p p, of "[[[200, 2, 0]]]"] s p show ?thesis by simp
qed

section \<open>Evaluating runs on plain images\<close>

lemma shape2_solid: "0 < h \<Longrightarrow> shape2 (solid h w px) = (h, w)"
  by (cases h) (simp_all add: shape2_def solid_def)

lemma cv2_subtract_solid:
  "cv2_subtract (solid h w p) (solid h w q) = solid h w (map2 sat_sub p q)"
  by (simp add: cv2_subtract_def solid_def zip_replicate)

lemma np_square_solid: "np_square (solid h w p) = solid h w (map (\<lambda>d. d * d) p)"
  by (simp add: np_square_def solid_def)

lemma np_sum_solid: "np_sum (solid h w p) = (h * (w * sum_list (map unat p))) mod 2 ^ 64"
  by (simp add: np_sum_def solid_def sum_list_replicate)

lemma img_mse_solid:
  "0 < h \<Longrightarrow>
   img_mse (solid h w p) (solid h w q)
     = (py_min (np_div ((h * (w * sum_list (map unat (map (\<lambda>d. d * d) (map2 sat_sub p q))))) mod 2 ^ 64) (h * w)) 10,
        solid h w (map2 sat_sub p q))"
  by (simp add: img_mse_def cv2_subtract_solid np_square_solid np_sum_solid shape2_solid)

lemma newvm_take_screenshot: "newvm base ''take_screenshot'' = Some TakeScreenshot"
  by (simp add: newvm_def newvm_class_def mangle_def)

lemma comp_images_solid:
  "resize P (solid 8 8 p) 8 8 = solid 8 8 p \<Longrightarrow>
   comp_images P (Some (solid 8 8 p)) (Some (solid 8 8 q))
     = Inr (fst (img_mse (solid 8 8 p) (solid 8 8 q)), ssim P (solid 8 8 p) (solid 8 8 q),
            snd (img_mse (solid 8 8 p) (solid 8 8 q)))"
  by (simp add: comp_images_def shape2_solid Let_def case_prod_beta)

lemma true_sq_err_solid:
  "true_sq_err (solid h w p) (solid h w q)
     = int h * (int w * sum_list (map (\<lambda>(x, y). (uint x - uint y)\<^sup>2) (zip p q)))"
  by (simp add: true_sq_err_def solid_def zip_replicate sum_list_replicate)

lemma perform_no_actions: "perform_stage_actions S (login_stage ps) w = (Inr (), w)"
  by (simp add: perform_stage_actions_def login_stage_def)

lemma run_stage_matched:
  assumes "wait_for_stage_done k P S st (snd (time_now w)) = Some (Inr sp, w2)"
    and "perform_stage_actions S st w2 = (Inr (), w3)"
  shows "run_stage k P S st w
           = Some (Inr (nextStage sp), (snd (time_now w3))\<lparr>ran := ran w3 @ [(name st, nextStage sp)]\<rparr>)"
  using assms by (simp add: run_stage_def time_now_def)

section \<open>The mean square error\<close>

text \<open>
  Claim C7. The score should be the sum of the squared signed differences between the
  resized capture and the reference, divided by the pixel count and clamped at 10. The
  scorer subtracts with \<^verbatim>\<open>cv2.subtract\<close>, which turns every negative difference into
  0, and squares in \<^verbatim>\<open>uint8\<close>, which wraps modulo 256. A black capture against a
  white reference scores 0 where the claim says 10, and so does a capture that is brighter
  than its reference by 16 in one channel.
\<close>

theorem mse_is_not_the_true_mean_square:
  assumes r: "resize P (solid 8 8 [0, 0, 0]) 8 8 = solid 8 8 [0, 0, 0]"
    and r': "resize P (solid 8 8 [16, 0, 0]) 8 8 = solid 8 8 [16, 0, 0]"
  shows "comp_images P (Some (solid 8 8 [0, 0, 0])) (Some (solid 8 8 [255, 255, 255]))
           = Inr (Fin 0, ssim P (solid 8 8 [0, 0, 0]) (solid 8 8 [255, 255, 255]), solid 8 8 [0, 0, 0])
         \<and> mse_spec P (solid 8 8 [0, 0, 0]) (solid 8 8 [255, 255, 255]) = 10
         \<and> comp_images P (Some (solid 8 8 [16, 0, 0])) (Some (solid 8 8 [0, 0, 0]))
           = Inr (Fin 0, ssim P (solid 8 8 [16, 0, 0]) (solid 8 8 [0, 0, 0]), solid 8 8 [16, 0, 0])
         \<and> mse_spec P (solid 8 8 [16, 0, 0]) (solid 8 8 [0, 0, 0]) = 10"
proof -
  have a: "comp_images P (Some (solid 8 8 [0, 0, 0])) (Some (solid 8 8 [255, 255, 255]))
           = Inr (Fin 0, ssim P (solid 8 8 [0, 0, 0]) (solid 8 8 [255, 255, 255]), solid 8 8 [0, 0, 0])"
    by (simp add: comp_images_solid [OF r] img_mse_solid sat_sub_def np_div_def py_min_def)
  have b: "mse_spec P (solid 8 8 [0, 0, 0]) (solid 8 8 [255, 255, 255]) = 10"
    by (simp add: mse_spec_def shape2_solid r true_sq_err_solid)
  have c: "comp_images P (Some (solid 8 8 [16, 0, 0])) (Some (solid 8 8 [0, 0, 0]))
           = Inr (Fin 0, ssim P (solid 8 8 [16, 0, 0]) (solid 8 8 [0, 0, 0]), solid 8 8 [16, 0, 0])"
    by (simp add: comp_images_solid [OF r'] img_mse_solid sat_sub_def np_div_def py_min_def)
  have d: "mse_spec P (solid 8 8 [16, 0, 0]) (solid 8 8 [0, 0, 0]) = 10"
    by (simp add: mse_spec_def shape2_solid r' true_sq_err_solid)
  from a b c d show ?thesis by blast
qed


theorem mse_is_not_the_true_mean_square_witness:
  "resize plain_prims (solid 8 8 [0, 0, 0]) 8 8 = solid 8 8 [0, 0, 0]
   \<and> resize plain_prims (solid 8 8 [16, 0, 0]) 8 8 = solid 8 8 [16, 0, 0]
   \<and> comp_images plain_prims (Some (solid 8 8 [0, 0, 0])) (Some (solid 8 8 [255, 255, 255]))
       = Inr (Fin 0, ssim plain_prims (solid 8 8 [0, 0, 0]) (solid 8 8 [255, 255, 255]),
              solid 8 8 [0, 0, 0])
   \<and> mse_spec plain_prims (solid 8 8 [0, 0, 0]) (solid 8 8 [255, 255, 255]) = 10"
proof -
  have r: "resize plain_prims (solid 8 8 [0, 0, 0]) 8 8 = solid 8 8 [0, 0, 0]"
    by (simp add: plain_prims_def)
  have r': "resize plain_prims (solid 8 8 [16, 0, 0]) 8 8 = solid 8 8 [16, 0, 0]"
    by (simp add: plain_prims_def)
  from mse_is_not_the_true_mean_square [OF r r'] r r' show ?thesis by blast
qed

section \<open>Which thresholds the loop applies\<close>

text \<open>
  Claim C1. A candidate should match exactly when the capture, scored against the
  candidate's reference image, satisfies the candidate's own two thresholds, and the loop
  should never return a subpath whose own thresholds the capture does not satisfy. The
  loop reads both thresholds from the variable \<^verbatim>\<open>subpath\<close> that the file check left
  behind, that is from the last candidate. In the run below the first candidate has
  tight thresholds (mean square error below 1) and the last one lenient ones (below 5);
  the capture differs from the first reference by a mean square error of 4. The loop
  returns the first candidate after one screenshot although its own thresholds do not
  hold. The hypotheses are facts about the two library primitives on these images.
\<close>

theorem last_thresholds_applied:
  assumes r: "resize P (solid 8 8 [12, 10, 10]) 8 8 = solid 8 8 [12, 10, 10]"
    and s: "1 / 2 < ssim P (solid 8 8 [12, 10, 10]) (solid 8 8 [10, 10, 10])"
  shows "\<exists>w'. wait_for_stage_done (Suc k) P (vm_system base) (login_stage [tight_path ''a.png'', lenient_path ''b.png''])
            (boot_world (two_refs (solid 8 8 [10, 10, 10]) (solid 8 8 [200, 200, 200]))
               (\<lambda>n. solid 8 8 [12, 10, 10]) (\<lambda>n. of_nat n))
           = Some (Inr (tight_path ''a.png''), w')
         \<and> shots w' = 1
         \<and> \<not> own_thresholds_hold P (two_refs (solid 8 8 [10, 10, 10]) (solid 8 8 [200, 200, 200]))
               (solid 8 8 [12, 10, 10]) (tight_path ''a.png'')"
proof -
  have m: "fst (img_mse (solid 8 8 [12, 10, 10]) (solid 8 8 [10, 10, 10])) = Fin 4"
    by (simp add: img_mse_solid sat_sub_def np_div_def py_min_def)
  have own: "\<not> own_thresholds_hold P (two_refs (solid 8 8 [10, 10, 10]) (solid 8 8 [200, 200, 200]))
               (solid 8 8 [12, 10, 10]) (tight_path ''a.png'')"
    by (simp add: own_thresholds_hold_def two_refs_def files_def imread_def tight_path_def
        comp_images_solid [OF r] m py_less_def)
  have run: "wait_for_stage_done (Suc k) P (vm_system base) (login_stage [tight_path ''a.png'', lenient_path ''b.png''])
            (boot_world (two_refs (solid 8 8 [10, 10, 10]) (solid 8 8 [200, 200, 200]))
               (\<lambda>n. solid 8 8 [12, 10, 10]) (\<lambda>n. of_nat n))
           = Some (Inr (tight_path ''a.png''),
               \<lparr>fs = (two_refs (solid 8 8 [10, 10, 10]) (solid 8 8 [200, 200, 200]))
                       (''/tmp/vm_check.png'' := Regular (Some (solid 8 8 [12, 10, 10]))),
                screen = (\<lambda>n. solid 8 8 [12, 10, 10]), shots = 1, clock = (\<lambda>n. of_nat n),
                ticks = 1, calls = [], telemetry = [], ran = []\<rparr>)"
    using s
    by (simp add: wait_for_stage_done_def time_now_def boot_world_def login_stage_def
        two_refs_def files_def tight_path_def lenient_path_def vm_system_def
        call_method_def newvm_take_screenshot curImgPath_def imread_def leaked_subpath_def
        comp_images_solid [OF r] m py_less_def)
  from run own show ?thesis by simp
qed



theorem last_thresholds_applied_witness:
  "resize plain_prims (solid 8 8 [12, 10, 10]) 8 8 = solid 8 8 [12, 10, 10]
   \<and> 1 / 2 < ssim plain_prims (solid 8 8 [12, 10, 10]) (solid 8 8 [10, 10, 10])
   \<and> (\<exists>w'. wait_for_stage_done (Suc 0) plain_prims (vm_system Map.empty)
              (login_stage [tight_path ''a.png'', lenient_path ''b.png''])
              (boot_world (two_refs (solid 8 8 [10, 10, 10]) (solid 8 8 [200, 200, 200]))
                 (\<lambda>n. solid 8 8 [12, 10, 10]) (\<lambda>n. of_nat n))
             = Some (Inr (tight_path ''a.png''), w')
           \<and> shots w' = 1
           \<and> \<not> own_thresholds_hold plain_prims
                 (two_refs (solid 8 8 [10, 10, 10]) (solid 8 8 [200, 200, 200]))
                 (solid 8 8 [12, 10, 10]) (tight_path ''a.png''))"
proof -
  have r: "resize plain_prims (solid 8 8 [12, 10, 10]) 8 8 = solid 8 8 [12, 10, 10]"
    by (simp add: plain_prims_def)
  have s: "1 / 2 < ssim plain_prims (solid 8 8 [12, 10, 10]) (solid 8 8 [10, 10, 10])"
    by (simp add: plain_prims_def)
  from last_thresholds_applied [OF r s, of 0 Map.empty] r s show ?thesis by blast
qed

section \<open>Priority among candidates\<close>

text \<open>
  With respect to the thresholds it applies, the scan is a first-match scan: the index it
  returns is that of the first reference image accepted, in declared order.
\<close>

lemma scan_refs_first_accepted:
  "fst (scan_refs P dbg (Some sp) cur refs i w) = Inr j \<Longrightarrow> j \<noteq> - 1 \<Longrightarrow> 0 \<le> i \<Longrightarrow>
   \<exists>n. j = i + int n \<and> n < length refs \<and> accepted_by P sp cur (refs ! n)
       \<and> (\<forall>m<n. \<not> accepted_by P sp cur (refs ! m))"
proof (induction refs arbitrary: i w)
  case Nil
  then show ?case by simp
next
  case (Cons r refs)
  show ?case
  proof (cases "accepted_by P sp cur r")
    case True
    with Cons.prems have "j = i"
      by (auto simp: accepted_by_def Let_def split: sum.splits prod.splits if_splits)
    with True show ?thesis by (intro exI [of _ 0]) simp
  next
    case False
    from Cons.prems(1) obtain mse s d where c: "comp_images P cur r = Inr (mse, s, d)"
      by (cases "comp_images P cur r") auto
    let ?w = "(if dbg then w\<lparr>telemetry := telemetry w @ [(r, cur, d, mse, s, 0)]\<rparr> else w)"
    from False c Cons.prems(1) have "fst (scan_refs P dbg (Some sp) cur refs (i + 1) ?w) = Inr j"
      by (auto simp: accepted_by_def Let_def split: if_splits)
    from Cons.IH [OF this Cons.prems(2)] Cons.prems(3)
    obtain n where n: "j = i + 1 + int n" "n < length refs" "accepted_by P sp cur (refs ! n)"
      "\<forall>m<n. \<not> accepted_by P sp cur (refs ! m)" by auto
    have "\<forall>m<Suc n. \<not> accepted_by P sp cur ((r # refs) ! m)"
      using False n(4) by (auto simp: less_Suc_eq_0_disj)
    with n show ?thesis by (intro exI [of _ "Suc n"]) simp
  qed
qed

text \<open>
  Claim C5 (first-match priority). When two candidates both satisfy their thresholds in
  one iteration, the loop should return the one listed first. The loop does stop at the
  first candidate it accepts, but it accepts by the thresholds of the last candidate. In
  the run below the first candidate is lenient and the last one tight, the capture equals
  the reference of the last one and differs from the reference of the first one by a
  mean square error of 4: both candidates satisfy their own thresholds, and the loop
  returns the second one. This is the defect of claim C1 seen from the priority rule.
\<close>

theorem first_satisfied_not_returned:
  assumes r: "resize P (solid 8 8 [12, 10, 10]) 8 8 = solid 8 8 [12, 10, 10]"
    and sa: "1 / 2 < ssim P (solid 8 8 [12, 10, 10]) (solid 8 8 [10, 10, 10])"
    and sb: "9 / 10 < ssim P (solid 8 8 [12, 10, 10]) (solid 8 8 [12, 10, 10])"
  shows "\<exists>w'. wait_for_stage_done (Suc k) P (vm_system base) (login_stage [lenient_path ''a.png'', tight_path ''b.png''])
            (boot_world (two_refs (solid 8 8 [10, 10, 10]) (solid 8 8 [12, 10, 10]))
               (\<lambda>n. solid 8 8 [12, 10, 10]) (\<lambda>n. of_nat n))
           = Some (Inr (tight_path ''b.png''), w')
         \<and> shots w' = 1
         \<and> own_thresholds_hold P (two_refs (solid 8 8 [10, 10, 10]) (solid 8 8 [12, 10, 10]))
               (solid 8 8 [12, 10, 10]) (lenient_path ''a.png'')
         \<and> own_thresholds_hold P (two_refs (solid 8 8 [10, 10, 10]) (solid 8 8 [12, 10, 10]))
               (solid 8 8 [12, 10, 10]) (tight_path ''b.png'')"
proof -
  have ma: "fst (img_mse (solid 8 8 [12, 10, 10]) (solid 8 8 [10, 10, 10])) = Fin 4"
    by (simp add: img_mse_solid sat_sub_def np_div_def py_min_def)
  have mb: "fst (img_mse (solid 8 8 [12, 10, 10]) (solid 8 8 [12, 10, 10])) = Fin 0"
    by (simp add: img_mse_solid sat_sub_def np_div_def py_min_def)
  have owna: "own_thresholds_hold P (two_refs (solid 8 8 [10, 10, 10]) (solid 8 8 [12, 10, 10]))
               (solid 8 8 [12, 10, 10]) (lenient_path ''a.png'')"
    using sa
    by (simp add: own_thresholds_hold_def two_refs_def files_def imread_def lenient_path_def
        comp_images_solid [OF r] ma py_less_def)
  have ownb: "own_thresholds_hold P (two_refs (solid 8 8 [10, 10, 10]) (solid 8 8 [12, 10, 10]))
               (solid 8 8 [12, 10, 10]) (tight_path ''b.png'')"
    using sb
    by (simp add: own_thresholds_hold_def two_refs_def files_def imread_def tight_path_def
        comp_images_solid [OF r] mb py_less_def)
  have run: "wait_for_stage_done (Suc k) P (vm_system base) (login_stage [lenient_path ''a.png'', tight_path ''b.png''])
            (boot_world (two_refs (solid 8 8 [10, 10, 10]) (solid 8 8 [12, 10, 10]))
               (\<lambda>n. solid 8 8 [12, 10, 10]) (\<lambda>n. of_nat n))
           = Some (Inr (tight_path ''b.png''),
               \<lparr>fs = (two_refs (solid 8 8 [10, 10, 10]) (solid 8 8 [12, 10, 10]))
                       (''/tmp/vm_check.png'' := Regular (Some (solid 8 8 [12, 10, 10]))),
                screen = (\<lambda>n. solid 8 8 [12, 10, 10]), shots = 1, clock = (\<lambda>n. of_nat n),
                ticks = 1, calls = [], telemetry = [], ran = []\<rparr>)"
    using sb
    by (simp add: wait_for_stage_done_def time_now_def boot_world_def login_stage_def
        two_refs_def files_def tight_path_def lenient_path_def vm_system_def
        call_method_def newvm_take_screenshot curImgPath_def imread_def leaked_subpath_def
        comp_images_solid [OF r] ma mb py_less_def)
  from run owna ownb show ?thesis by simp
qed


theorem first_satisfied_not_returned_witness:
  "resize plain_prims (solid 8 8 [12, 10, 10]) 8 8 = solid 8 8 [12, 10, 10]
   \<and> 1 / 2 < ssim plain_prims (solid 8 8 [12, 10, 10]) (solid 8 8 [10, 10, 10])
   \<and> 9 / 10 < ssim plain_prims (solid 8 8 [12, 10, 10]) (solid 8 8 [12, 10, 10])
   \<and> (\<exists>w'. wait_for_stage_done (Suc 0) plain_prims (vm_system Map.empty)
              (login_stage [lenient_path ''a.png'', tight_path ''b.png''])
              (boot_world (two_refs (solid 8 8 [10, 10, 10]) (solid 8 8 [12, 10, 10]))
                 (\<lambda>n. solid 8 8 [12, 10, 10]) (\<lambda>n. of_nat n))
             = Some (Inr (tight_path ''b.png''), w')
           \<and> shots w' = 1
           \<and> own_thresholds_hold plain_prims
                 (two_refs (solid 8 8 [10, 10, 10]) (solid 8 8 [12, 10, 10]))
                 (solid 8 8 [12, 10, 10]) (lenient_path ''a.png'')
           \<and> own_thresholds_hold plain_prims
                 (two_refs (solid 8 8 [10, 10, 10]) (solid 8 8 [12, 10, 10]))
                 (solid 8 8 [12, 10, 10]) (tight_path ''b.png''))"
proof -
  have r: "resize plain_prims (solid 8 8 [12, 10, 10]) 8 8 = solid 8 8 [12, 10, 10]"
    by (simp add: plain_prims_def)
  have sa: "1 / 2 < ssim plain_prims (solid 8 8 [12, 10, 10]) (solid 8 8 [10, 10, 10])"
    by (simp add: plain_prims_def)
  have sb: "9 / 10 < ssim plain_prims (solid 8 8 [12, 10, 10]) (solid 8 8 [12, 10, 10])"
    by (simp add: plain_prims_def)
  from first_satisfied_not_returned [OF r sa sb, of 0 Map.empty] r sa sb show ?thesis by blast
qed

section \<open>The timeout\<close>

text \<open>
  Once the budget is used up the test \<^verbatim>\<open>start + timeoutS >= time()\<close> is false for
  good: with a start at 100, a budget of 10 and every later reading of the clock beyond
  200, a loop whose capture never matches polls on without an end, whatever the fuel.
\<close>

lemma polls_forever_after_deadline:
  assumes r: "resize P (solid 8 8 [200, 200, 200]) 8 8 = solid 8 8 [200, 200, 200]"
  shows "wait_loop k P (vm_system base) (login_stage [tight_path ''a.png'']) 100
           [Some (solid 8 8 [0, 0, 0])]
           \<lparr>fs = f, screen = (\<lambda>n. solid 8 8 [200, 200, 200]), shots = j,
            clock = (\<lambda>n. 200 + of_nat n), ticks = t, calls = [], telemetry = [], ran = []\<rparr>
         = None"
proof (induction k arbitrary: f j t)
  case 0
  show ?case by simp
next
  case (Suc k)
  have m: "fst (img_mse (solid 8 8 [200, 200, 200]) (solid 8 8 [0, 0, 0])) = Fin 10"
    by (simp add: img_mse_solid sat_sub_def np_div_def py_min_def)
  show ?case
    by (simp add: time_now_def login_stage_def tight_path_def vm_system_def
        call_method_def newvm_take_screenshot curImgPath_def imread_def leaked_subpath_def
        comp_images_solid [OF r] m py_less_def
        Suc.IH [unfolded login_stage_def tight_path_def vm_system_def])
qed

text \<open>
  Claim C2. When no candidate matches, the loop should abort (with an exit of its own)
  once the time since its start has reached \<open>timeoutS\<close>, and never earlier. The loop
  exits with 5 when \<^verbatim>\<open>start + timeoutS >= time()\<close>, that is while the budget is not
  yet used up. In the run below the budget is 10 seconds, the capture never matches and
  the clock advances by 0.3 seconds a reading: the loop exits with 5 after its first
  screenshot, 0.3 seconds after its start.
\<close>

theorem timeout_fires_on_first_poll:
  assumes r: "resize P (solid 8 8 [200, 200, 200]) 8 8 = solid 8 8 [200, 200, 200]"
  shows "\<exists>w'. wait_for_stage_done (Suc k) P (vm_system base) (login_stage [tight_path ''a.png''])
            (boot_world (two_refs (solid 8 8 [0, 0, 0]) (solid 8 8 [0, 0, 0]))
               (\<lambda>n. solid 8 8 [200, 200, 200]) (\<lambda>n. 100 + of_nat n * (3 / 10)))
           = Some (Inl (SystemExit 5), w')
         \<and> shots w' = 1 \<and> ticks w' = 2
         \<and> clock w' 1 - clock w' 0 < timeoutS (login_stage [tight_path ''a.png''])"
proof -
  have m: "fst (img_mse (solid 8 8 [200, 200, 200]) (solid 8 8 [0, 0, 0])) = Fin 10"
    by (simp add: img_mse_solid sat_sub_def np_div_def py_min_def)
  have run: "wait_for_stage_done (Suc k) P (vm_system base) (login_stage [tight_path ''a.png''])
            (boot_world (two_refs (solid 8 8 [0, 0, 0]) (solid 8 8 [0, 0, 0]))
               (\<lambda>n. solid 8 8 [200, 200, 200]) (\<lambda>n. 100 + of_nat n * (3 / 10)))
           = Some (Inl (SystemExit 5),
               \<lparr>fs = (two_refs (solid 8 8 [0, 0, 0]) (solid 8 8 [0, 0, 0]))
                       (''/tmp/vm_check.png'' := Regular (Some (solid 8 8 [200, 200, 200]))),
                screen = (\<lambda>n. solid 8 8 [200, 200, 200]), shots = 1,
                clock = (\<lambda>n. 100 + of_nat n * (3 / 10)),
                ticks = 2, calls = [], telemetry = [], ran = []\<rparr>)"
    by (simp add: wait_for_stage_done_def time_now_def boot_world_def login_stage_def
        two_refs_def files_def tight_path_def vm_system_def
        call_method_def newvm_take_screenshot curImgPath_def imread_def leaked_subpath_def
        comp_images_solid [OF r] m py_less_def)
  show ?thesis unfolding run by (simp add: login_stage_def)
qed



theorem timeout_fires_on_first_poll_witness:
  "resize plain_prims (solid 8 8 [200, 200, 200]) 8 8 = solid 8 8 [200, 200, 200]
   \<and> (\<exists>w'. wait_for_stage_done (Suc 0) plain_prims (vm_system Map.empty)
              (login_stage [tight_path ''a.png''])
              (boot_world (two_refs (solid 8 8 [0, 0, 0]) (solid 8 8 [0, 0, 0]))
                 (\<lambda>n. solid 8 8 [200, 200, 200]) (\<lambda>n. 100 + of_nat n * (3 / 10)))
             = Some (Inl (SystemExit 5), w')
           \<and> shots w' = 1 \<and> ticks w' = 2
           \<and> clock w' 1 - clock w' 0 < timeoutS (login_stage [tight_path ''a.png'']))"
proof -
  have r: "resize plain_prims (solid 8 8 [200, 200, 200]) 8 8 = solid 8 8 [200, 200, 200]"
    by (simp add: plain_prims_def)
  from timeout_fires_on_first_poll [OF r, of 0 Map.empty] r show ?thesis by blast
qed

section \<open>Resolving the next stage\<close>

text \<open>
  What the scan of the collection does: the stage at index 0 is found by its name, a name
  that no stage has gives exit 10, and so does every name that the stage at index 0 does
  not have.
\<close>

lemma unknown_name_aborts:
  "nm \<noteq> Some ''None'' \<Longrightarrow> find (\<lambda>s. Some (name s) = nm) (s0 # rest) = None \<Longrightarrow>
   after_stage (s0 # rest) cur nm = Abort (SystemExit 10)"
  by (simp add: after_stage_def split: if_splits)

lemma first_stage_found:
  "name s0 \<noteq> ''None'' \<Longrightarrow> after_stage (s0 # rest) cur (Some (name s0)) = Continue s0"
  by (simp add: after_stage_def)

lemma later_stage_not_found:
  "nm \<noteq> Some ''None'' \<Longrightarrow> Some (name s0) \<noteq> nm \<Longrightarrow>
   after_stage (s0 # rest) cur nm = Abort (SystemExit 10)"
  by (simp add: after_stage_def)

text \<open>
  Claim C3. When the name of the next stage is not the terminal sentinel and some stage
  of the collection has that name, the orchestrator should make it the current stage and
  go on; only a name that no stage has should end the run with exit 10. The scan of the
  collection exits with 10 at the first stage whose name differs, so only the stage at
  index 0 can be found. In the run below the collection is the stages ``login'' and
  ``desktop'', the first stage matches at once and asks for ``desktop'': the run ends
  with exit 10 although the stage exists.
\<close>

theorem second_stage_not_found:
  assumes r: "resize P (solid 8 8 [10, 10, 10]) 8 8 = solid 8 8 [10, 10, 10]"
    and s: "9 / 10 < ssim P (solid 8 8 [10, 10, 10]) (solid 8 8 [10, 10, 10])"
  shows "\<exists>w'. run_stages (Suc n) (Suc k) P (vm_system base)
            [login_stage [tight_path ''a.png''], desktop_stage]
            (boot_world (two_refs (solid 8 8 [10, 10, 10]) (solid 8 8 [90, 90, 90]))
               (\<lambda>n. solid 8 8 [10, 10, 10]) (\<lambda>n. of_nat n))
           = Some (Inl (SystemExit 10), w')
         \<and> ran w' = [(''login'', Some ''desktop'')]
         \<and> find (\<lambda>s. Some (name s) = Some ''desktop'')
              [login_stage [tight_path ''a.png''], desktop_stage] = Some desktop_stage"
proof -
  let ?w = "boot_world (two_refs (solid 8 8 [10, 10, 10]) (solid 8 8 [90, 90, 90]))
               (\<lambda>n. solid 8 8 [10, 10, 10]) (\<lambda>n. of_nat n)"
  let ?w2 = "\<lparr>fs = (two_refs (solid 8 8 [10, 10, 10]) (solid 8 8 [90, 90, 90]))
                       (''/tmp/vm_check.png'' := Regular (Some (solid 8 8 [10, 10, 10]))),
                screen = (\<lambda>n. solid 8 8 [10, 10, 10]), shots = 1, clock = (\<lambda>n. of_nat n),
                ticks = 2, calls = [], telemetry = [], ran = []\<rparr>"
  have m: "fst (img_mse (solid 8 8 [10, 10, 10]) (solid 8 8 [10, 10, 10])) = Fin 0"
    by (simp add: img_mse_solid sat_sub_def np_div_def py_min_def)
  have wait: "wait_for_stage_done (Suc k) P (vm_system base) (login_stage [tight_path ''a.png''])
                (snd (time_now ?w)) = Some (Inr (tight_path ''a.png''), ?w2)"
    using s
    by (simp add: wait_for_stage_done_def time_now_def boot_world_def login_stage_def
        two_refs_def files_def tight_path_def vm_system_def
        call_method_def newvm_take_screenshot curImgPath_def imread_def leaked_subpath_def
        comp_images_solid [OF r] m py_less_def)
  have stage: "run_stage (Suc k) P (vm_system base) (login_stage [tight_path ''a.png'']) ?w
           = Some (Inr (Some ''desktop''), ?w2\<lparr>ticks := 3, ran := [(''login'', Some ''desktop'')]\<rparr>)"
    using run_stage_matched [OF wait perform_no_actions]
    by (simp add: time_now_def tight_path_def login_stage_def)
  have nxt: "after_stage [login_stage [tight_path ''a.png''], desktop_stage]
               (login_stage [tight_path ''a.png'']) (Some ''desktop'') = Abort (SystemExit 10)"
    by (simp add: after_stage_def login_stage_def)
  have fnd: "find (\<lambda>s. Some (name s) = Some ''desktop'')
              [login_stage [tight_path ''a.png''], desktop_stage] = Some desktop_stage"
    by (simp add: login_stage_def desktop_stage_def)
  have run: "run_stages (Suc n) (Suc k) P (vm_system base)
            [login_stage [tight_path ''a.png''], desktop_stage] ?w
           = Some (Inl (SystemExit 10), ?w2\<lparr>ticks := 3, ran := [(''login'', Some ''desktop'')]\<rparr>)"
    by (simp add: run_stages_def stage nxt)
  have "ran (?w2\<lparr>ticks := 3, ran := [(''login'', Some ''desktop'')]\<rparr>) = [(''login'', Some ''desktop'')]"
    by simp
  with run fnd show ?thesis by blast
qed


theorem second_stage_not_found_witness:
  "resize plain_prims (solid 8 8 [10, 10, 10]) 8 8 = solid 8 8 [10, 10, 10]
   \<and> 9 / 10 < ssim plain_prims (solid 8 8 [10, 10, 10]) (solid 8 8 [10, 10, 10])
   \<and> (\<exists>w'. run_stages (Suc 0) (Suc 0) plain_prims (vm_system Map.empty)
              [login_stage [tight_path ''a.png''], desktop_stage]
              (boot_world (two_refs (solid 8 8 [10, 10, 10]) (solid 8 8 [90, 90, 90]))
                 (\<lambda>n. solid 8 8 [10, 10, 10]) (\<lambda>n. of_nat n))
             = Some (Inl (SystemExit 10), w')
           \<and> ran w' = [(''login'', Some ''desktop'')]
           \<and> find (\<lambda>s. Some (name s) = Some ''desktop'')
                [login_stage [tight_path ''a.png''], desktop_stage] = Some desktop_stage)"
proof -
  have r: "resize plain_prims (solid 8 8 [10, 10, 10]) 8 8 = solid 8 8 [10, 10, 10]"
    by (simp add: plain_prims_def)
  have s: "9 / 10 < ssim plain_prims (solid 8 8 [10, 10, 10]) (solid 8 8 [10, 10, 10])"
    by (simp add: plain_prims_def)
  from second_stage_not_found [OF r s, of 0 0 Map.empty] r s show ?thesis by blast
qed

section \<open>Reference files are checked before polling\<close>

lemma load_refs_bad:
  "find (bad_ref f) ps = Some sp \<Longrightarrow>
   load_refs f ps = Inl (SystemExit (if f (checkFile sp) = Missing then 2 else 3))"
  by (induction ps) (auto simp: bad_ref_def split: fentry.splits if_splits)

lemma load_refs_good:
  "find (bad_ref f) ps = None \<Longrightarrow> load_refs f ps = Inr (map (imread f \<circ> checkFile) ps)"
  by (induction ps) (auto simp: bad_ref_def imread_def split: fentry.splits if_splits)

lemma find_bad_ex: "sp \<in> set ps \<Longrightarrow> bad_ref f sp \<Longrightarrow> \<exists>first. find (bad_ref f) ps = Some first"
  by (cases "find (bad_ref f) ps") (auto simp: find_None_iff)

text \<open>
  Claim C6. If some reference path of the stage is missing or is no regular file, the
  loop ends before any polling: whatever the fuel, the outcome is the exit of the first
  offending path in declared order, 2 when it is missing and 3 when it exists but is no
  regular file, and no screenshot has been taken (the world differs by the one reading of
  the clock only).
\<close>

theorem missing_ref_aborts_before_polling:
  assumes "sp \<in> set (pathsList stageObj)" and "bad_ref (fs w) sp"
  shows "\<exists>first w'. find (bad_ref (fs w)) (pathsList stageObj) = Some first
           \<and> wait_for_stage_done fuel P S stageObj w
               = Some (Inl (SystemExit (if fs w (checkFile first) = Missing then 2 else 3)), w')
           \<and> shots w' = shots w \<and> fs w' = fs w \<and> calls w' = calls w"
proof -
  from assms obtain first where f: "find (bad_ref (fs w)) (pathsList stageObj) = Some first"
    using find_bad_ex by blast
  have "load_refs (fs w) (pathsList stageObj)
          = Inl (SystemExit (if fs w (checkFile first) = Missing then 2 else 3))"
    by (rule load_refs_bad [OF f])
  then have "wait_for_stage_done fuel P S stageObj w
               = Some (Inl (SystemExit (if fs w (checkFile first) = Missing then 2 else 3)),
                       w\<lparr>ticks := Suc (ticks w)\<rparr>)"
    by (simp add: wait_for_stage_done_def time_now_def)
  with f show ?thesis by simp
qed

theorem missing_ref_aborts_before_polling_witness:
  "tight_path ''a.png'' \<in> set (pathsList (login_stage [tight_path ''a.png'']))
   \<and> bad_ref (files []) (tight_path ''a.png'')
   \<and> bad_ref (files [(''a.png'', NonRegular)]) (tight_path ''a.png'')
   \<and> (\<exists>w'. wait_for_stage_done 0 plain_prims (vm_system Map.empty) (login_stage [tight_path ''a.png''])
              (boot_world (files []) (\<lambda>n. solid 8 8 [0, 0, 0]) (\<lambda>n. of_nat n))
             = Some (Inl (SystemExit 2), w') \<and> shots w' = 0)
   \<and> (\<exists>w'. wait_for_stage_done 0 plain_prims (vm_system Map.empty) (login_stage [tight_path ''a.png''])
              (boot_world (files [(''a.png'', NonRegular)]) (\<lambda>n. solid 8 8 [0, 0, 0]) (\<lambda>n. of_nat n))
             = Some (Inl (SystemExit 3), w') \<and> shots w' = 0)"
proof -
  let ?st = "login_stage [tight_path ''a.png'']"
  let ?wa = "boot_world (files []) (\<lambda>n. solid 8 8 [0, 0, 0]) (\<lambda>n. of_nat n)"
  let ?wb = "boot_world (files [(''a.png'', NonRegular)]) (\<lambda>n. solid 8 8 [0, 0, 0]) (\<lambda>n. of_nat n)"
  have i: "tight_path ''a.png'' \<in> set (pathsList ?st)" by (simp add: login_stage_def)
  have a: "bad_ref (files []) (tight_path ''a.png'')"
    by (simp add: bad_ref_def files_def)
  have b: "bad_ref (files [(''a.png'', NonRegular)]) (tight_path ''a.png'')"
    by (simp add: bad_ref_def files_def tight_path_def)
  have fa: "fs ?wa = files []" and fb: "fs ?wb = files [(''a.png'', NonRegular)]"
    by (simp_all add: boot_world_def)
  have sa: "shots ?wa = 0" and sb: "shots ?wb = 0" by (simp_all add: boot_world_def)
  have finda: "find (bad_ref (files [])) (pathsList ?st) = Some first \<Longrightarrow>
      files [] (checkFile first) = Missing" for first
    by (simp add: files_def)
  have findb: "find (bad_ref (files [(''a.png'', NonRegular)])) (pathsList ?st) = Some first \<Longrightarrow>
      files [(''a.png'', NonRegular)] (checkFile first) = NonRegular" for first
    using b by (auto simp: login_stage_def files_def tight_path_def split: if_splits)
  have ra: "\<exists>w'. wait_for_stage_done 0 plain_prims (vm_system Map.empty) ?st ?wa
             = Some (Inl (SystemExit 2), w') \<and> shots w' = 0"
  proof -
    from a fa have a': "bad_ref (fs ?wa) (tight_path ''a.png'')" by simp
    from missing_ref_aborts_before_polling [OF i a', of 0 plain_prims "vm_system Map.empty"]
    obtain first w' where f: "find (bad_ref (fs ?wa)) (pathsList ?st) = Some first"
      and run: "wait_for_stage_done 0 plain_prims (vm_system Map.empty) ?st ?wa
                  = Some (Inl (SystemExit (if fs ?wa (checkFile first) = Missing then 2 else 3)), w')"
      and sh: "shots w' = shots ?wa"
      by blast
    from f fa finda have "fs ?wa (checkFile first) = Missing" by simp
    with run sh sa show ?thesis by simp
  qed
  have rb: "\<exists>w'. wait_for_stage_done 0 plain_prims (vm_system Map.empty) ?st ?wb
             = Some (Inl (SystemExit 3), w') \<and> shots w' = 0"
  proof -
    from b fb have b': "bad_ref (fs ?wb) (tight_path ''a.png'')" by simp
    from missing_ref_aborts_before_polling [OF i b', of 0 plain_prims "vm_system Map.empty"]
    obtain first w' where f: "find (bad_ref (fs ?wb)) (pathsList ?st) = Some first"
      and run: "wait_for_stage_done 0 plain_prims (vm_system Map.empty) ?st ?wb
                  = Some (Inl (SystemExit (if fs ?wb (checkFile first) = Missing then 2 else 3)), w')"
      and sh: "shots w' = shots ?wb"
      by blast
    from f fb findb have "fs ?wb (checkFile first) = NonRegular" by simp
    with run sh sb show ?thesis by simp
  qed
  from i a b ra rb show ?thesis by blast
qed

section \<open>The debug plot does not interfere\<close>

lemma strip_tel_eq_iff:
  "strip_tel w = strip_tel v \<longleftrightarrow>
     fs w = fs v \<and> screen w = screen v \<and> shots w = shots v \<and> clock w = clock v
     \<and> ticks w = ticks v \<and> calls w = calls v \<and> ran w = ran v"
  by (cases w, cases v) (simp add: strip_tel_def)

lemma invoke_strip:
  "strip_tel w = strip_tel v \<Longrightarrow>
   fst (invoke m a w) = fst (invoke m a v)
   \<and> strip_tel (snd (invoke m a w)) = strip_tel (snd (invoke m a v))"
  by (cases m; cases a) (simp_all add: strip_tel_eq_iff)

lemma call_method_strip:
  "fst (call_method M nm a w) = fst (call_method M nm a v)
   \<and> strip_tel (snd (call_method M nm a w)) = strip_tel (snd (call_method M nm a v))"
  if "strip_tel w = strip_tel v"
proof (cases "M nm")
  case None
  then show ?thesis using that by (simp add: call_method_def)
next
  case (Some m)
  then show ?thesis using invoke_strip [OF that, of m a] by (simp add: call_method_def)
qed

lemma scan_refs_strip:
  "strip_tel w = strip_tel v \<Longrightarrow>
   fst (scan_refs P d sub cur refs i w) = fst (scan_refs P d' sub cur refs i v)
   \<and> strip_tel (snd (scan_refs P d sub cur refs i w))
       = strip_tel (snd (scan_refs P d' sub cur refs i v))"
proof (induction refs arbitrary: i w v)
  case Nil
  then show ?case by simp
next
  case (Cons r refs)
  show ?case
  proof (cases "comp_images P cur r")
    case (Inl e)
    with Cons.prems show ?thesis by simp
  next
    case (Inr t)
    obtain mse s dif where t: "t = (mse, s, dif)" by (cases t) auto
    show ?thesis
    proof (cases sub)
      case None
      with Inr t Cons.prems show ?thesis by simp
    next
      case (Some sp)
      let ?same = "(if py_less mse (checkMseLeq sp) \<and> checkSsimGeq sp < s then 1 else 0 :: nat)"
      let ?w = "(if d then w\<lparr>telemetry := telemetry w @ [(r, cur, dif, mse, s, ?same)]\<rparr> else w)"
      let ?v = "(if d' then v\<lparr>telemetry := telemetry v @ [(r, cur, dif, mse, s, ?same)]\<rparr> else v)"
      from Cons.prems have eq: "strip_tel ?w = strip_tel ?v"
        by (simp add: strip_tel_eq_iff)
      from Cons.IH [OF eq] eq Inr t Some show ?thesis
        by (simp add: Let_def)
    qed
  qed
qed

lemma time_now_strip:
  "strip_tel w = strip_tel v \<Longrightarrow>
   fst (time_now w) = fst (time_now v) \<and> strip_tel (snd (time_now w)) = strip_tel (snd (time_now v))"
  by (simp add: time_now_def strip_tel_eq_iff)

lemma wait_loop_strip:
  "strip_tel w = strip_tel v \<Longrightarrow>
   strip_out (wait_loop fuel P (S\<lparr>debugPlt := d\<rparr>) st start refs w)
     = strip_out (wait_loop fuel P (S\<lparr>debugPlt := d'\<rparr>) st start refs v)"
proof (induction fuel arbitrary: w v)
  case 0
  then show ?case by (simp add: strip_out_def)
next
  case (Suc fuel)
  let ?p = "curImgPath S"
  obtain r1 w1 where c1: "call_method (machine S) ''take_screenshot'' (Path ?p) w = (r1, w1)"
    by (cases "call_method (machine S) ''take_screenshot'' (Path ?p) w") auto
  obtain r1' v1 where c2: "call_method (machine S) ''take_screenshot'' (Path ?p) v = (r1', v1)"
    by (cases "call_method (machine S) ''take_screenshot'' (Path ?p) v") auto
  from call_method_strip [OF Suc.prems, of "machine S" "''take_screenshot''" "Path ?p"] c1 c2
  have r1: "r1' = r1" and s1: "strip_tel w1 = strip_tel v1" by simp_all
  show ?case
  proof (cases r1)
    case (Inl e)
    with c1 c2 r1 s1 show ?thesis by (simp add: strip_out_def curImgPath_def)
  next
    case (Inr u)
    from s1 have fseq: "fs w1 = fs v1" by (simp add: strip_tel_eq_iff)
    let ?sub = "leaked_subpath (pathsList st)"
    let ?cur = "imread (fs v1) ?p"
    obtain r2 w2 where d1: "scan_refs P d ?sub ?cur refs 0 w1 = (r2, w2)"
      by (cases "scan_refs P d ?sub ?cur refs 0 w1") auto
    obtain r2' v2 where d2: "scan_refs P d' ?sub ?cur refs 0 v1 = (r2', v2)"
      by (cases "scan_refs P d' ?sub ?cur refs 0 v1") auto
    from scan_refs_strip [OF s1, of P d ?sub ?cur refs 0 d'] d1 d2
    have r2: "r2' = r2" and s2: "strip_tel w2 = strip_tel v2" by simp_all
    show ?thesis
    proof (cases r2)
      case (Inl e)
      with c1 c2 r1 Inr d1 d2 r2 s2 fseq show ?thesis
        by (simp add: strip_out_def curImgPath_def)
    next
      case res: (Inr resultindex)
      show ?thesis
      proof (cases "resultindex = - 1")
        case False
        with c1 c2 r1 Inr d1 d2 r2 s2 fseq res show ?thesis
          by (simp add: strip_out_def curImgPath_def)
      next
        case True
        obtain now w3 where tw: "time_now w2 = (now, w3)" by (cases "time_now w2") auto
        obtain now' v3 where tv: "time_now v2 = (now', v3)" by (cases "time_now v2") auto
        from time_now_strip [OF s2] tw tv
        have t: "now' = now" and s3: "strip_tel w3 = strip_tel v3" by simp_all
        show ?thesis
        proof (cases "now \<le> start + timeoutS st")
          case late: True
          with c1 c2 r1 Inr d1 d2 r2 fseq res True tw tv t s3 show ?thesis
            by (simp add: strip_out_def curImgPath_def)
        next
          case early: False
          with Suc.IH [OF s3] c1 c2 r1 Inr d1 d2 r2 fseq res True tw tv t show ?thesis
            by (simp add: curImgPath_def)
        qed
      qed
    qed
  qed
qed

text \<open>
  Claim C9 (noninterference of telemetry). With the debug plot enabled and with it
  disabled, the synchronization loop has the same outcome (the same matched subpath, the
  same exit or the same lack of an answer within the fuel) and leaves the same world, up
  to what the debug plot received. The plot is taken to return normally and the clock to
  be given by the world.
\<close>

theorem telemetry_noninterference:
  "strip_out (wait_for_stage_done fuel P (S\<lparr>debugPlt := True\<rparr>) st w)
     = strip_out (wait_for_stage_done fuel P (S\<lparr>debugPlt := False\<rparr>) st w)"
proof -
  obtain start w1 where t: "time_now w = (start, w1)" by (cases "time_now w") auto
  show ?thesis
  proof (cases "load_refs (fs w1) (pathsList st)")
    case (Inl e)
    with t show ?thesis by (simp add: wait_for_stage_done_def)
  next
    case (Inr refs)
    have "strip_tel w1 = strip_tel w1" by simp
    from wait_loop_strip [OF this, where fuel=fuel and P=P and S=S and d=True and st=st and start=start and refs=refs and d'=False] t Inr
    show ?thesis by (simp add: wait_for_stage_done_def)
  qed
qed


section \<open>The action dispatcher on the machine\<close>

lemma mangled_names:
  "mangle ''StagesSystem'' ''__send_mouse_move_action'' = ''_StagesSystem__send_mouse_move_action''"
  "mangle ''StagesSystem'' ''__send_mouse_click_action'' = ''_StagesSystem__send_mouse_click_action''"
  "mangle ''StagesSystem'' ''__send_keyboard_key_action'' = ''_StagesSystem__send_keyboard_key_action''"
  "mangle ''StagesSystem'' ''__send_keyboard_text_action'' = ''_StagesSystem__send_keyboard_text_action''"
  by (simp_all add: mangle_def)

lemma newvm_class_names:
  "map fst newvm_class =
     [''__init__'', ''try_load'', ''_newvm__get_screen_size'', ''_newvm__send_action'',
      ''_newvm__send_keyboard_text_action'', ''send_keyboard_key_action'',
      ''send_mouse_move_action'', ''send_mouse_click_action'', ''send_commandk_action'',
      ''destroy'', ''create'', ''take_screenshot'']"
  by (simp add: newvm_class_def mangle_def)

lemma newvm_dispatch_names:
  "newvm base ''_StagesSystem__send_mouse_move_action'' = base ''_StagesSystem__send_mouse_move_action''"
  "newvm base ''_StagesSystem__send_mouse_click_action'' = base ''_StagesSystem__send_mouse_click_action''"
  "newvm base ''_StagesSystem__send_keyboard_key_action'' = base ''_StagesSystem__send_keyboard_key_action''"
  "newvm base ''_StagesSystem__send_keyboard_text_action'' = base ''_StagesSystem__send_keyboard_text_action''"
  by (simp_all add: newvm_def newvm_class_def mangle_def)

text \<open>
  Claim C4. For each action descriptor of a stage, in declared order, the dispatcher
  should invoke the one machine capability of the descriptor's kind. The dispatcher,
  written in class \<^verbatim>\<open>StagesSystem\<close>, asks the machine for attributes named
  \<^verbatim>\<open>__send_mouse_move_action\<close> and alike, which Python resolves as
  \<^verbatim>\<open>_StagesSystem__send_mouse_move_action\<close>; class \<^verbatim>\<open>newvm\<close> holds its
  capabilities under \<^verbatim>\<open>send_mouse_move_action\<close> (and the text capability under
  \<^verbatim>\<open>_newvm__send_keyboard_text_action\<close>). On a \<^verbatim>\<open>newvm\<close> machine whose base
  class does not define the name asked for, a stage with one pointer move raises
  AttributeError and no capability is invoked.
\<close>

theorem dispatch_on_newvm_raises:
  assumes "base ''_StagesSystem__send_mouse_move_action'' = None"
  shows "perform_stage_actions (vm_system base) move_stage w
           = (Inl (AttributeError ''_StagesSystem__send_mouse_move_action''), w)
         \<and> map_of newvm_class ''send_mouse_move_action'' = Some SendMouseMove"
  using assms
  by (simp add: perform_stage_actions_def vm_system_def move_stage_def perform_action_def
      call_method_def mangled_names newvm_dispatch_names)
     (simp add: newvm_class_def mangle_def)

theorem dispatch_on_newvm_raises_witness:
  "(Map.empty :: machine) ''_StagesSystem__send_mouse_move_action'' = None
   \<and> perform_stage_actions (vm_system Map.empty) move_stage
        (boot_world (files []) (\<lambda>n. solid 8 8 [0, 0, 0]) (\<lambda>n. of_nat n))
       = (Inl (AttributeError ''_StagesSystem__send_mouse_move_action''),
          boot_world (files []) (\<lambda>n. solid 8 8 [0, 0, 0]) (\<lambda>n. of_nat n))"
proof -
  have b: "(Map.empty :: machine) ''_StagesSystem__send_mouse_move_action'' = None" by simp
  from dispatch_on_newvm_raises [OF b] b show ?thesis by blast
qed

text \<open>The same for every list of actions: nothing ever reaches a \<^verbatim>\<open>newvm\<close>
  machine through the dispatcher.\<close>

lemma newvm_never_called:
  assumes "base ''_StagesSystem__send_mouse_move_action'' = None"
    and "base ''_StagesSystem__send_mouse_click_action'' = None"
    and "base ''_StagesSystem__send_keyboard_key_action'' = None"
    and "base ''_StagesSystem__send_keyboard_text_action'' = None"
  shows "snd (perform_actions (newvm base) as w) = w"
proof (induction as)
  case Nil
  show ?case by simp
next
  case (Cons a as)
  have "\<exists>e. perform_action (newvm base) a w = (Inl e, w)"
    using assms
    by (simp add: perform_action_def call_method_def mangled_names newvm_dispatch_names
        split: option.splits)
  then show ?case by auto
qed

text \<open>
  On a machine that has the attributes asked for, the dispatcher does what the
  specification describes: one call for each descriptor, in declared order, of the
  capability of its kind; and a descriptor of no known kind is an error on any machine.
\<close>

lemma perform_action_bound:
  "capability_of a = Some c \<Longrightarrow>
   perform_action bound_machine a w = (Inr (), w\<lparr>calls := calls w @ [c]\<rparr>)"
  by (auto simp: capability_of_def perform_action_def call_method_def mangled_names
      bound_machine_def split: option.splits)

lemma perform_action_invalid:
  "capability_of a = None \<Longrightarrow> perform_action M a w = (Inl (InvalidStageAction a), w)"
  by (auto simp: capability_of_def perform_action_def split: option.splits)

lemma perform_actions_bound:
  "list_all (\<lambda>a. capability_of a \<noteq> None) as \<Longrightarrow>
   perform_actions bound_machine as w
     = (Inr (), w\<lparr>calls := calls w @ map (\<lambda>a. the (capability_of a)) as\<rparr>)"
proof (induction as arbitrary: w)
  case Nil
  show ?case by simp
next
  case (Cons a as)
  then obtain c where c: "capability_of a = Some c" by auto
  from Cons.prems have rest: "list_all (\<lambda>a. capability_of a \<noteq> None) as" by simp
  show ?case
    by (simp add: perform_action_bound [OF c] Cons.IH [OF rest] c)
qed

section \<open>The terminal sentinel\<close>

lemma run_stage_ran:
  "run_stage k P S st w = Some (Inr nm, w') \<Longrightarrow> ran w' \<noteq> [] \<and> last (ran w') = (name st, nm)"
  by (auto simp: run_stage_def split: option.splits prod.splits sum.splits)

lemma after_stage_Break: "(after_stage sl cur nm = Break) = (nm = Some ''None'')"
  by (simp add: after_stage_def split: sum.splits)

lemma run_loop_success:
  "run_loop n k P S sl cur w = Some (Inr (), w') \<Longrightarrow>
   ran w' \<noteq> [] \<and> snd (last (ran w')) = Some ''None''"
proof (induction n arbitrary: cur w)
  case 0
  then show ?case by simp
next
  case (Suc n)
  from Suc.prems obtain nm w1 where st: "run_stage k P S cur w = Some (Inr nm, w1)"
    by (auto split: option.splits prod.splits sum.splits)
  show ?case
  proof (cases "after_stage sl cur nm")
    case Break
    then have nm: "nm = Some ''None''" by (simp add: after_stage_Break)
    from Suc.prems st Break have "w' = w1" by simp
    with run_stage_ran [OF st] nm show ?thesis by simp
  next
    case (Continue s)
    with Suc.prems st have "run_loop n k P S sl s w1 = Some (Inr (), w')" by simp
    then show ?thesis by (rule Suc.IH)
  next
    case (Abort e)
    with Suc.prems st show ?thesis by simp
  qed
qed

text \<open>
  Claim C10. The terminal sentinel is the string \<^verbatim>\<open>"None"\<close>. A round of the
  orchestrator leaves the loop exactly when the stage just run asked for \<^verbatim>\<open>"None"\<close>;
  Python's null is looked up as a name (and found nowhere: exit 10); a stage that the
  orchestrator moves on to was asked for by its name, which is therefore not
  \<^verbatim>\<open>"None"\<close>; a stage asking for \<^verbatim>\<open>"None"\<close> ends the run successfully whatever the
  fuel left; and a run that ended successfully ran a stage last that asked for
  \<^verbatim>\<open>"None"\<close>.
\<close>

theorem sentinel_is_the_string_None:
  "(after_stage sl cur nm = Break) = (nm = Some ''None'')
   \<and> after_stage (s0 # rest) cur None = Abort (SystemExit 10)
   \<and> (after_stage (s0 # rest) cur nm = Continue s \<longrightarrow> Some (name s) = nm \<and> name s \<noteq> ''None'')
   \<and> (run_stage k P S cur w = Some (Inr (Some ''None''), w1) \<longrightarrow>
        run_loop (Suc n) k P S sl cur w = Some (Inr (), w1))
   \<and> (run_loop m k P S sl cur v = Some (Inr (), v') \<longrightarrow>
        ran v' \<noteq> [] \<and> snd (last (ran v')) = Some ''None'')"
proof (intro conjI impI)
  show "(after_stage sl cur nm = Break) = (nm = Some ''None'')" by (rule after_stage_Break)
  show "after_stage (s0 # rest) cur None = Abort (SystemExit 10)" by (simp add: after_stage_def)
next
  assume c: "after_stage (s0 # rest) cur nm = Continue s"
  then show "Some (name s) = nm" by (auto simp: after_stage_def split: if_splits)
  from c show "name s \<noteq> ''None''" by (auto simp: after_stage_def split: if_splits)
next
  assume "run_stage k P S cur w = Some (Inr (Some ''None''), w1)"
  then show "run_loop (Suc n) k P S sl cur w = Some (Inr (), w1)"
    by (simp add: after_stage_def)
next
  assume r: "run_loop m k P S sl cur v = Some (Inr (), v')"
  from run_loop_success [OF r] show "ran v' \<noteq> []" by simp
  from run_loop_success [OF r] show "snd (last (ran v')) = Some ''None''" by simp
qed


theorem sentinel_is_the_string_None_witness:
  "after_stage [desktop_stage] desktop_stage (Some ''None'') = Break
   \<and> after_stage [desktop_stage] desktop_stage None = Abort (SystemExit 10)
   \<and> (\<exists>w1. run_stage (Suc 0) plain_prims (vm_system Map.empty) desktop_stage
              (boot_world (two_refs (solid 8 8 [10, 10, 10]) (solid 8 8 [90, 90, 90]))
                 (\<lambda>n. solid 8 8 [90, 90, 90]) (\<lambda>n. of_nat n))
             = Some (Inr (Some ''None''), w1)
           \<and> run_loop (Suc 0) (Suc 0) plain_prims (vm_system Map.empty) [desktop_stage] desktop_stage
              (boot_world (two_refs (solid 8 8 [10, 10, 10]) (solid 8 8 [90, 90, 90]))
                 (\<lambda>n. solid 8 8 [90, 90, 90]) (\<lambda>n. of_nat n))
             = Some (Inr (), w1)
           \<and> snd (last (ran w1)) = Some ''None'')"
proof -
  let ?w = "boot_world (two_refs (solid 8 8 [10, 10, 10]) (solid 8 8 [90, 90, 90]))
               (\<lambda>n. solid 8 8 [90, 90, 90]) (\<lambda>n. of_nat n)"
  let ?w2 = "\<lparr>fs = (two_refs (solid 8 8 [10, 10, 10]) (solid 8 8 [90, 90, 90]))
                       (''/tmp/vm_check.png'' := Regular (Some (solid 8 8 [90, 90, 90]))),
                screen = (\<lambda>n. solid 8 8 [90, 90, 90]), shots = 1, clock = (\<lambda>n. of_nat n),
                ticks = 2, calls = [], telemetry = [], ran = []\<rparr>"
  let ?S = "vm_system Map.empty"
  have r: "resize plain_prims (solid 8 8 [90, 90, 90]) 8 8 = solid 8 8 [90, 90, 90]"
    by (simp add: plain_prims_def)
  have m: "fst (img_mse (solid 8 8 [90, 90, 90]) (solid 8 8 [90, 90, 90])) = Fin 0"
    by (simp add: img_mse_solid sat_sub_def np_div_def py_min_def)
  have wait: "wait_for_stage_done (Suc 0) plain_prims ?S desktop_stage (snd (time_now ?w))
                = Some (Inr (hd (pathsList desktop_stage)), ?w2)"
    by (simp add: wait_for_stage_done_def time_now_def boot_world_def desktop_stage_def
        two_refs_def files_def vm_system_def
        call_method_def newvm_take_screenshot curImgPath_def imread_def leaked_subpath_def
        comp_images_solid [OF r] m py_less_def)
       (simp add: plain_prims_def)
  have act: "perform_stage_actions ?S desktop_stage ?w2 = (Inr (), ?w2)"
    by (simp add: perform_stage_actions_def desktop_stage_def)
  have stage: "run_stage (Suc 0) plain_prims ?S desktop_stage ?w
           = Some (Inr (Some ''None''), ?w2\<lparr>ticks := 3, ran := [(''desktop'', Some ''None'')]\<rparr>)"
    using run_stage_matched [OF wait act]
    by (simp add: time_now_def desktop_stage_def)
  note T = sentinel_is_the_string_None [where sl = "[desktop_stage]" and cur = desktop_stage
      and s0 = desktop_stage and rest = "[]" and k = "Suc 0" and P = plain_prims and S = ?S
      and w = ?w and n = 0 and m = "Suc 0" and v = ?w and nm = "Some ''None''"
      and ?w1.0 = "?w2\<lparr>ticks := 3, ran := [(''desktop'', Some ''None'')]\<rparr>"
      and v' = "?w2\<lparr>ticks := 3, ran := [(''desktop'', Some ''None'')]\<rparr>"]
  from T have a: "after_stage [desktop_stage] desktop_stage (Some ''None'') = Break" by blast
  from T have b: "after_stage [desktop_stage] desktop_stage None = Abort (SystemExit 10)" by blast
  from T stage have loop: "run_loop (Suc 0) (Suc 0) plain_prims ?S [desktop_stage] desktop_stage ?w
      = Some (Inr (), ?w2\<lparr>ticks := 3, ran := [(''desktop'', Some ''None'')]\<rparr>)" by blast
  from T loop have l: "snd (last (ran (?w2\<lparr>ticks := 3, ran := [(''desktop'', Some ''None'')]\<rparr>))) = Some ''None''"
    by blast
  from a b stage loop l show ?thesis by blast
qed


end
